theory Spec2Isabelle
  imports Complex_Main
begin

section \<open>Data model of \<^verbatim>\<open>src/app/page.tsx\<close>\<close>

text \<open>
  JavaScript numbers are modelled as rationals: every finite double is a rational, and
  the development reasons about the exact values (no \<^verbatim>\<open>NaN\<close>, no infinities, no
  rounding of intermediate results). Values produced by \<^verbatim>\<open>Math.round\<close> are integers
  and are kept as \<^typ>\<open>int\<close>.

  The field \<^verbatim>\<open>id\<close> of \<^verbatim>\<open>Slide\<close> and of \<^verbatim>\<open>TimelineSegment\<close> is renamed
  (\<open>slide_id\<close>, \<open>segment_id\<close>), since \<open>id\<close> is the identity function of HOL.
\<close>

record Slide =
  slide_id :: string
  title :: string
  body :: string
  background :: string
  duration :: rat

record TimelineSegment =
  segment_id :: string
  durationMs :: int

record Timeline =
  segments :: "TimelineSegment list"
  totalDurationMs :: int

text \<open>\<^verbatim>\<open>Math.round\<close> rounds to the nearest integer, halves towards \<open>+\<infinity>\<close>.\<close>

definition Math_round :: "rat \<Rightarrow> int" where
  "Math_round x = \<lfloor>x + 1 / 2\<rfloor>"

subsection \<open>Timeline Builder (the \<^verbatim>\<open>timeline\<close> memo, lines 44 to 54)\<close>

definition segment_of :: "Slide \<Rightarrow> TimelineSegment" where
  "segment_of slide =
     \<lparr>segment_id = slide_id slide,
      durationMs = max 1 (Math_round (duration slide * 1000))\<rparr>"

definition timeline :: "Slide list \<Rightarrow> Timeline" where
  "timeline slides =
     (let segs = map segment_of slides;
          total = foldl (\<lambda>sum segment. sum + durationMs segment) 0 segs
      in \<lparr>segments = segs, totalDurationMs = max total 1\<rparr>)"

subsection \<open>Frame Mapper (the body of \<^verbatim>\<open>drawFrame\<close>, lines 105 to 121)\<close>

text \<open>
  The \<^verbatim>\<open>for\<close> loop over the segments, from index \<open>i\<close> with \<open>remaining\<close> time left.
  It returns \<open>(activeIndex, remaining)\<close> at the \<^verbatim>\<open>break\<close>. A loop that runs off the
  end (only possible with no segments at all) leaves \<^verbatim>\<open>activeIndex\<close> at its initial
  value 0.
\<close>

function scan :: "TimelineSegment list \<Rightarrow> nat \<Rightarrow> rat \<Rightarrow> nat \<times> rat" where
  "scan segs i remaining =
     (if i < length segs then
        (if remaining \<le> of_int (durationMs (segs ! i)) \<or> i = length segs - 1
         then (i, remaining)
         else scan segs (i + 1) (remaining - of_int (durationMs (segs ! i))))
      else (0, remaining))"
  by pat_completeness auto
termination
  by (relation "measure (\<lambda>(segs, i, remaining). length segs - i)") auto

declare scan.simps [simp del]

text \<open>
  The frame selected for \<open>elapsedMs\<close>: the active index and the local progress. The
  source reads \<^verbatim>\<open>timeline.segments[0]\<close> before the loop; with no segments that is
  \<^verbatim>\<open>undefined\<close> and reading its duration throws, so the mapper has no result there
  (\<^verbatim>\<open>drawFrame\<close> returns before it when there are no slides).
\<close>

definition frame_at :: "Timeline \<Rightarrow> rat \<Rightarrow> (nat \<times> rat) option" where
  "frame_at tline elapsedMs =
     (if segments tline = [] then None
      else
        let clamped = max 0 (min elapsedMs (of_int (totalDurationMs tline - 1)));
            (activeIndex, remaining) = scan (segments tline) 0 clamped;
            currentSegment = segments tline ! activeIndex;
            progress = (if durationMs currentSegment = 0 then 0
                        else remaining / of_int (durationMs currentSegment))
        in Some (activeIndex, progress))"


subsection \<open>Slide list operations (lines 21 to 29 and 200 to 224)\<close>

text \<open>
  \<^verbatim>\<open>createSlide\<close> asks for \<^verbatim>\<open>crypto.randomUUID()\<close> when the host has it and falls
  back to \<^verbatim>\<open>`slide-${index}`\<close> otherwise. The outcome of that test and call is a
  parameter of the model.
\<close>

datatype Crypto = NoRandomUUID | RandomUUID string

definition digit_char :: "nat \<Rightarrow> char" where
  "digit_char n = ''0123456789'' ! (n mod 10)"

function show_nat :: "nat \<Rightarrow> string" where
  "show_nat n = (if n < 10 then [digit_char n] else show_nat (n div 10) @ [digit_char n])"
  by pat_completeness auto
termination
  by (relation "measure (\<lambda>n. n)") auto

declare show_nat.simps [simp del]

definition createSlide :: "Crypto \<Rightarrow> nat \<Rightarrow> Slide" where
  "createSlide crypto index =
     \<lparr>slide_id = (case crypto of RandomUUID uuid \<Rightarrow> uuid
                               | NoRandomUUID \<Rightarrow> ''slide-'' @ show_nat index),
      title = ''Slide '' @ show_nat (index + 1),
      body = ''Describe your story here.'',
      background = [''#5b21b6'', ''#1d4ed8'', ''#059669'', ''#dc2626''] ! (index mod 4),
      duration = 4\<rparr>"

definition INITIAL_SLIDES :: "Crypto \<Rightarrow> Crypto \<Rightarrow> Slide list" where
  "INITIAL_SLIDES c0 c1 = [createSlide c0 0, createSlide c1 1]"

definition addSlide :: "Crypto \<Rightarrow> Slide list \<Rightarrow> Slide list" where
  "addSlide crypto prev = prev @ [createSlide crypto (length prev)]"

text \<open>\<^verbatim>\<open>Partial<Slide>\<close>: each field present or absent.\<close>

record SlidePatch =
  patch_id :: "string option"
  patch_title :: "string option"
  patch_body :: "string option"
  patch_background :: "string option"
  patch_duration :: "rat option"

definition apply_patch :: "Slide \<Rightarrow> SlidePatch \<Rightarrow> Slide" where
  "apply_patch slide patch =
     \<lparr>slide_id = (case patch_id patch of Some v \<Rightarrow> v | None \<Rightarrow> slide_id slide),
      title = (case patch_title patch of Some v \<Rightarrow> v | None \<Rightarrow> title slide),
      body = (case patch_body patch of Some v \<Rightarrow> v | None \<Rightarrow> body slide),
      background = (case patch_background patch of Some v \<Rightarrow> v | None \<Rightarrow> background slide),
      duration = (case patch_duration patch of Some v \<Rightarrow> v | None \<Rightarrow> duration slide)\<rparr>"

definition updateSlide :: "string \<Rightarrow> SlidePatch \<Rightarrow> Slide list \<Rightarrow> Slide list" where
  "updateSlide ident patch prev =
     map (\<lambda>slide. if slide_id slide = ident then apply_patch slide patch else slide) prev"

definition removeSlide :: "string \<Rightarrow> Slide list \<Rightarrow> Slide list" where
  "removeSlide ident prev =
     (if length prev \<le> 1 then prev else filter (\<lambda>slide. slide_id slide \<noteq> ident) prev)"

text \<open>\<^verbatim>\<open>Array.prototype.findIndex\<close>: the first index that satisfies the test, or \<open>-1\<close>.\<close>

fun findIndex :: "('a \<Rightarrow> bool) \<Rightarrow> 'a list \<Rightarrow> int" where
  "findIndex P [] = - 1"
| "findIndex P (x # xs) =
     (if P x then 0 else (let r = findIndex P xs in if r < 0 then - 1 else r + 1))"

definition moveSlide :: "string \<Rightarrow> int \<Rightarrow> Slide list \<Rightarrow> Slide list" where
  "moveSlide ident direction prev =
     (let index = findIndex (\<lambda>slide. slide_id slide = ident) prev;
          target = index + direction
      in if index < 0 \<or> target < 0 \<or> target \<ge> int (length prev) then prev
         else
           let removed = prev ! nat index;
               updated = take (nat index) prev @ drop (nat index + 1) prev
           in take (nat target) updated @ [removed] @ drop (nat target) updated)"

text \<open>The four editing operations, as the buttons and fields of the page issue them.\<close>

datatype SlideOp =
    Add Crypto
  | Update string SlidePatch
  | Move string int
  | Remove string

fun apply_op :: "Slide list \<Rightarrow> SlideOp \<Rightarrow> Slide list" where
  "apply_op prev (Add crypto) = addSlide crypto prev"
| "apply_op prev (Update ident patch) = updateSlide ident patch prev"
| "apply_op prev (Move ident direction) = moveSlide ident direction prev"
| "apply_op prev (Remove ident) = removeSlide ident prev"

subsection \<open>The host: canvas, streams, recorder, animation frames\<close>

text \<open>
  A canvas either yields a 2d context or not, and \<^verbatim>\<open>captureStream\<close> yields a stream,
  which is the list of its tracks. A blob is its parts and its type; an object URL is
  identified with the blob it refers to.
\<close>

type_synonym MediaStream = "nat list"

record Canvas =
  context2d :: bool
  captureStream :: "nat \<Rightarrow> MediaStream"

record Blob =
  blob_parts :: "string list"
  blob_type :: string

text \<open>
  The recorder built by \<^verbatim>\<open>renderVideo\<close>, with what its two handlers capture: the
  negotiated \<^verbatim>\<open>mimeType\<close> and the \<^verbatim>\<open>recordedUrl\<close> of the render that created them.
\<close>

record MediaRecorder =
  recorder_stream :: MediaStream
  recorder_mimeType :: "string option"
  recorder_recordedUrl :: "Blob option"

text \<open>
  What the browser offers: whether \<^verbatim>\<open>MediaRecorder\<close> is defined, what
  \<^verbatim>\<open>MediaRecorder.isTypeSupported\<close> answers (it may throw), and whether the constructor
  accepts a stream with the given \<^verbatim>\<open>mimeType\<close> option. \<^verbatim>\<open>recorder.start\<close> is taken to
  succeed.
\<close>

datatype Probe = Supported | Unsupported | ProbeThrows

record Browser =
  hasMediaRecorder :: bool
  isTypeSupported :: "string \<Rightarrow> Probe"
  constructs :: "string option \<Rightarrow> bool"

text \<open>
  The two \<^verbatim>\<open>tick\<close> closures. Each captures its \<^verbatim>\<open>start\<close> time and the slides of the
  render that created it (through \<^verbatim>\<open>drawFrame\<close> and \<^verbatim>\<open>timeline\<close>); the one of
  \<^verbatim>\<open>runTimeline\<close> also \<^verbatim>\<open>loop\<close> and whether \<^verbatim>\<open>onComplete\<close> was given, the one of
  \<^verbatim>\<open>renderVideo\<close> the recorder.
\<close>

datatype Tick =
    PreviewTick rat bool bool "Slide list"
  | CaptureTick rat MediaRecorder "Slide list"

datatype Event =
    DrawSlide Slide rat
  | RequestAnimationFrame nat
  | CancelAnimationFrame nat
  | OnComplete
  | CaptureStream nat
  | NewMediaRecorder "string option"
  | RecorderStart nat
  | RecorderStop
  | TrackStop nat
  | CreateObjectURL Blob
  | RevokeObjectURL Blob

text \<open>
  The state of \<^verbatim>\<open>HomePage\<close>: its React state, its refs, and the part of the host it
  talks to (the animation frames requested and not yet run or cancelled, the next frame
  handle, and the trace of the calls made on the host so far).
\<close>

record AppState =
  slides :: "Slide list"
  isPlaying :: bool
  isRecording :: bool
  statusMessage :: "string option"
  recordedUrl :: "Blob option"
  canvasRef :: "Canvas option"
  animationRef :: "nat option"
  playingRef :: bool
  recorderRef :: "MediaRecorder option"
  recordedChunksRef :: "string list"
  pendingFrames :: "(nat \<times> Tick) list"
  nextFrameId :: nat
  trace :: "Event list"

definition emit :: "Event \<Rightarrow> AppState \<Rightarrow> AppState" where
  "emit e s = s\<lparr>trace := trace s @ [e]\<rparr>"

definition requestAnimationFrame :: "Tick \<Rightarrow> AppState \<Rightarrow> nat \<times> AppState" where
  "requestAnimationFrame tick s =
     (let handle = nextFrameId s
      in (handle,
          emit (RequestAnimationFrame handle)
            (s\<lparr>pendingFrames := pendingFrames s @ [(handle, tick)],
               nextFrameId := handle + 1\<rparr>)))"

definition cancelAnimationFrame :: "nat \<Rightarrow> AppState \<Rightarrow> AppState" where
  "cancelAnimationFrame handle s =
     emit (CancelAnimationFrame handle)
       (s\<lparr>pendingFrames := filter (\<lambda>(h, tick). h \<noteq> handle) (pendingFrames s)\<rparr>)"

text \<open>\<^verbatim>\<open>if (animationRef.current) cancelAnimationFrame(animationRef.current)\<close>\<close>

definition cancel_pending :: "AppState \<Rightarrow> AppState" where
  "cancel_pending s =
     (case animationRef s of
        None \<Rightarrow> s
      | Some handle \<Rightarrow> if handle \<noteq> 0 then cancelAnimationFrame handle s else s)"

text \<open>\<^verbatim>\<open>stream.getTracks().forEach((track) => track.stop())\<close>\<close>

definition stop_tracks :: "MediaStream \<Rightarrow> AppState \<Rightarrow> AppState" where
  "stop_tracks stream s = foldl (\<lambda>st track. emit (TrackStop track) st) s stream"

subsection \<open>\<^verbatim>\<open>drawFrame\<close> (lines 94 to 125)\<close>

text \<open>
  \<open>sl\<close> is the slide list the closure captured. Painting is the call of
  \<^verbatim>\<open>drawSlide\<close> with the active slide and the local progress.
\<close>

definition drawFrame :: "Slide list \<Rightarrow> rat \<Rightarrow> AppState \<Rightarrow> AppState" where
  "drawFrame sl elapsedMs s =
     (case canvasRef s of
        None \<Rightarrow> s
      | Some canvas \<Rightarrow>
          if \<not> context2d canvas \<or> length sl = 0 then s
          else
            (case frame_at (timeline sl) elapsedMs of
               None \<Rightarrow> s
             | Some (activeIndex, progress) \<Rightarrow> emit (DrawSlide (sl ! activeIndex) progress) s))"

subsection \<open>Playback: \<^verbatim>\<open>stopPlayback\<close> and \<^verbatim>\<open>runTimeline\<close> (lines 127 to 173)\<close>

definition stopPlayback :: "AppState \<Rightarrow> AppState" where
  "stopPlayback s = cancel_pending (s\<lparr>playingRef := False, isPlaying := False\<rparr>)"

text \<open>The \<^verbatim>\<open>tick\<close> of \<^verbatim>\<open>runTimeline\<close>, run by the host at time \<open>now\<close>.\<close>

definition preview_tick ::
  "rat \<Rightarrow> bool \<Rightarrow> bool \<Rightarrow> Slide list \<Rightarrow> rat \<Rightarrow> AppState \<Rightarrow> AppState" where
  "preview_tick start loop onComplete sl now s =
     (if \<not> playingRef s then s
      else
        let elapsed = now - start;
            total = totalDurationMs (timeline sl)
        in if elapsed \<ge> of_int total then
             (let s1 = drawFrame sl (of_int (total - 1)) s
              in if loop then
                   (let (handle, s2) = requestAnimationFrame (PreviewTick now loop onComplete sl) s1
                    in s2\<lparr>animationRef := Some handle\<rparr>)
                 else
                   (let s2 = s1\<lparr>playingRef := False, isPlaying := False\<rparr>
                    in if onComplete then emit OnComplete s2 else s2))
           else
             (let s1 = drawFrame sl elapsed s;
                  (handle, s2) = requestAnimationFrame (PreviewTick start loop onComplete sl) s1
              in s2\<lparr>animationRef := Some handle\<rparr>))"

text \<open>\<open>now\<close> is what \<^verbatim>\<open>performance.now()\<close> returns.\<close>

definition runTimeline :: "bool \<Rightarrow> bool \<Rightarrow> rat \<Rightarrow> AppState \<Rightarrow> AppState" where
  "runTimeline loop onComplete now s =
     (if length (slides s) = 0 then s
      else
        let s1 = cancel_pending s;
            start = now;
            s2 = s1\<lparr>playingRef := True, isPlaying := True\<rparr>;
            s3 = drawFrame (slides s) 0 s2;
            (handle, s4) = requestAnimationFrame (PreviewTick start loop onComplete (slides s)) s3
        in s4\<lparr>animationRef := Some handle\<rparr>)"

definition playPreview :: "rat \<Rightarrow> AppState \<Rightarrow> AppState" where
  "playPreview now s = runTimeline True False now s"

definition stopPreview :: "AppState \<Rightarrow> AppState" where
  "stopPreview s = stopPlayback s"

subsection \<open>Capture: \<^verbatim>\<open>selectMimeType\<close> and \<^verbatim>\<open>renderVideo\<close> (lines 238 to 322)\<close>

text \<open>\<^verbatim>\<open>Array.prototype.find\<close>: the first element that satisfies the test.\<close>

fun find_first :: "('a \<Rightarrow> bool) \<Rightarrow> 'a list \<Rightarrow> 'a option" where
  "find_first P [] = None"
| "find_first P (x # xs) = (if P x then Some x else find_first P xs)"

definition candidates :: "string list" where
  "candidates = [''video/webm;codecs=vp9'', ''video/webm;codecs=vp8'', ''video/webm'']"

definition selectMimeType :: "Browser \<Rightarrow> string option" where
  "selectMimeType browser =
     (if \<not> hasMediaRecorder browser then None
      else find_first
             (\<lambda>candidate. case isTypeSupported browser candidate of
                             Supported \<Rightarrow> True
                           | Unsupported \<Rightarrow> False
                           | ProbeThrows \<Rightarrow> False)
             candidates)"

text \<open>The handlers \<^verbatim>\<open>recorder.ondataavailable\<close> and \<^verbatim>\<open>recorder.onstop\<close>.\<close>

definition ondataavailable :: "string option \<Rightarrow> AppState \<Rightarrow> AppState" where
  "ondataavailable data s =
     (case data of
        None \<Rightarrow> s
      | Some chunk \<Rightarrow>
          if length chunk > 0 then s\<lparr>recordedChunksRef := recordedChunksRef s @ [chunk]\<rparr>
          else s)"

definition onstop :: "MediaRecorder \<Rightarrow> AppState \<Rightarrow> AppState" where
  "onstop recorder s =
     (let blob = \<lparr>blob_parts = recordedChunksRef s,
                  blob_type = (case recorder_mimeType recorder of
                                 Some m \<Rightarrow> m | None \<Rightarrow> ''video/webm'')\<rparr>;
          s1 = (case recorder_recordedUrl recorder of
                  None \<Rightarrow> s
                | Some url \<Rightarrow> emit (RevokeObjectURL url) s);
          s2 = emit (CreateObjectURL blob) s1;
          s3 = s2\<lparr>recordedUrl := Some blob, isRecording := False,
                  statusMessage := Some ''Video rendering complete. Ready for download.''\<rparr>
      in stop_tracks (recorder_stream recorder) s3)"

text \<open>The \<^verbatim>\<open>tick\<close> of \<^verbatim>\<open>renderVideo\<close>.\<close>

definition capture_tick :: "rat \<Rightarrow> MediaRecorder \<Rightarrow> Slide list \<Rightarrow> rat \<Rightarrow> AppState \<Rightarrow> AppState" where
  "capture_tick start recorder sl now s =
     (if \<not> playingRef s then s
      else
        let elapsed = now - start;
            total = totalDurationMs (timeline sl)
        in if elapsed \<ge> of_int total then
             (let s1 = drawFrame sl (of_int (total - 1)) s;
                  s2 = s1\<lparr>playingRef := False, isPlaying := False\<rparr>
              in emit RecorderStop s2)
           else
             (let s1 = drawFrame sl elapsed s;
                  (handle, s2) = requestAnimationFrame (CaptureTick start recorder sl) s1
              in s2\<lparr>animationRef := Some handle\<rparr>))"

text \<open>The \<^verbatim>\<open>catch\<close> block of \<^verbatim>\<open>renderVideo\<close>.\<close>

definition capture_failed :: "MediaStream \<Rightarrow> AppState \<Rightarrow> AppState" where
  "capture_failed stream s =
     (let s1 = s\<lparr>statusMessage := Some ''MediaRecorder is not supported in this browser.''\<rparr>;
          s2 = stop_tracks stream s1
      in s2\<lparr>playingRef := False, isPlaying := False, isRecording := False\<rparr>)"

text \<open>
  \<^verbatim>\<open>renderVideo\<close>. With \<^verbatim>\<open>MediaRecorder\<close> undefined, the \<^verbatim>\<open>new\<close> expression throws
  before any constructor runs; otherwise the constructor is called, with the
  \<^verbatim>\<open>mimeType\<close> option when \<^verbatim>\<open>mimeType\<close> is truthy (a non-empty string) and without
  it otherwise, and may throw as well.
\<close>

definition renderVideo :: "Browser \<Rightarrow> rat \<Rightarrow> AppState \<Rightarrow> AppState" where
  "renderVideo browser now s =
     (if length (slides s) = 0 \<or> isRecording s then s
      else
        case canvasRef s of
          None \<Rightarrow> s\<lparr>statusMessage := Some ''Canvas preview is not ready.''\<rparr>
        | Some canvas \<Rightarrow>
            let stream = captureStream canvas 30;
                s1 = cancel_pending (emit (CaptureStream 30) s);
                mimeType = selectMimeType browser;
                s2 = s1\<lparr>recordedChunksRef := []\<rparr>;
                option = (case mimeType of
                            None \<Rightarrow> None
                          | Some m \<Rightarrow> if m \<noteq> [] then Some m else None)
            in if \<not> hasMediaRecorder browser then capture_failed stream s2
               else
                 let s3 = emit (NewMediaRecorder option) s2
                 in if \<not> constructs browser option then capture_failed stream s3
                    else
                      let recorder = \<lparr>recorder_stream = stream,
                                       recorder_mimeType = mimeType,
                                       recorder_recordedUrl = recordedUrl s\<rparr>;
                          s4 = s3\<lparr>recorderRef := Some recorder\<rparr>;
                          s5 = s4\<lparr>isRecording := True,
                                  statusMessage := Some ''Rendering video...''\<rparr>;
                          s6 = emit (RecorderStart 200) s5;
                          start = now;
                          s7 = s6\<lparr>playingRef := True\<rparr>;
                          s8 = s7\<lparr>isPlaying := True\<rparr>;
                          s9 = drawFrame (slides s) 0 s8;
                          (handle, s10) = requestAnimationFrame (CaptureTick start recorder (slides s)) s9
                      in s10\<lparr>animationRef := Some handle\<rparr>)"

subsection \<open>The host runs a tick\<close>

fun run_tick :: "Tick \<Rightarrow> rat \<Rightarrow> AppState \<Rightarrow> AppState" where
  "run_tick (PreviewTick start loop onComplete sl) now s = preview_tick start loop onComplete sl now s"
| "run_tick (CaptureTick start recorder sl) now s = capture_tick start recorder sl now s"

text \<open>The host runs the frame with the given handle, if it is still pending.\<close>

definition fire :: "nat \<Rightarrow> rat \<Rightarrow> AppState \<Rightarrow> AppState" where
  "fire handle now s =
     (case find_first (\<lambda>(h, tick). h = handle) (pendingFrames s) of
        None \<Rightarrow> s
      | Some (h, tick) \<Rightarrow>
          run_tick tick now
            (s\<lparr>pendingFrames := filter (\<lambda>(h', tick'). h' \<noteq> handle) (pendingFrames s)\<rparr>))"

text \<open>The page as first rendered, given its canvas and its initial slides.\<close>

definition initial_state :: "Canvas option \<Rightarrow> Slide list \<Rightarrow> AppState" where
  "initial_state canvas sl =
     \<lparr>slides = sl, isPlaying = False, isRecording = False, statusMessage = None,
      recordedUrl = None, canvasRef = canvas, animationRef = None, playingRef = False,
      recorderRef = None, recordedChunksRef = [], pendingFrames = [], nextFrameId = 1,
      trace = []\<rparr>"

subsection \<open>Runs of the page\<close>

text \<open>
  What can happen to the page with a fixed slide list: the user starts or stops the
  preview or asks for a capture, the host runs a requested animation frame, or the
  recorder of \<^verbatim>\<open>recorderRef\<close> delivers data or reports that it stopped.
\<close>

datatype Action =
    PlayPreview rat
  | StopPreview
  | RenderVideo Browser rat
  | Fire nat rat
  | DataAvailable "string option"
  | RecorderStopped

fun perform :: "AppState \<Rightarrow> Action \<Rightarrow> AppState" where
  "perform s (PlayPreview now) = playPreview now s"
| "perform s StopPreview = stopPreview s"
| "perform s (RenderVideo browser now) = renderVideo browser now s"
| "perform s (Fire handle now) = fire handle now s"
| "perform s (DataAvailable data) = ondataavailable data s"
| "perform s RecorderStopped =
     (case recorderRef s of None \<Rightarrow> s | Some recorder \<Rightarrow> onstop recorder s)"

text \<open>
  The scheduling discipline of the page: a requested frame is the only one, its handle is
  the non-zero one held in \<^verbatim>\<open>animationRef\<close>, and the liveness flag is set.
\<close>

definition single_schedule :: "AppState \<Rightarrow> bool" where
  "single_schedule s =
     (nextFrameId s \<noteq> 0
      \<and> (pendingFrames s = []
         \<or> (playingRef s \<and> (case animationRef s of
                              None \<Rightarrow> False
                            | Some handle \<Rightarrow> handle \<noteq> 0
                                \<and> map fst (pendingFrames s) = [handle]))))"


subsection \<open>Example inputs\<close>

definition ex_slide :: "rat \<Rightarrow> Slide" where
  "ex_slide d =
     \<lparr>slide_id = ''s'', title = ''Slide'', body = ''Describe your story here.'',
      background = ''#5b21b6'', duration = d\<rparr>"

definition ex_canvas :: Canvas where
  "ex_canvas = \<lparr>context2d = True, captureStream = (\<lambda>frameRate. [0, 1])\<rparr>"

text \<open>A browser whose probe throws for VP9, rejects VP8 and accepts plain WebM.\<close>

definition ex_browser :: Browser where
  "ex_browser =
     \<lparr>hasMediaRecorder = True,
      isTypeSupported = (\<lambda>m. if m = ''video/webm;codecs=vp9'' then ProbeThrows
                             else if m = ''video/webm'' then Supported else Unsupported),
      constructs = (\<lambda>option. True)\<rparr>"


definition ex_browser_failing :: Browser where
  "ex_browser_failing =
     \<lparr>hasMediaRecorder = True, isTypeSupported = (\<lambda>m. Unsupported),
      constructs = (\<lambda>option. False)\<rparr>"

definition ex_state :: AppState where
  "ex_state = initial_state (Some ex_canvas) [ex_slide 4, ex_slide 2]"

definition ex_state_empty :: AppState where
  "ex_state_empty = initial_state (Some ex_canvas) []"

text \<open>The example page while its preview plays, and while a capture is in progress.\<close>

definition ex_state_playing :: AppState where
  "ex_state_playing = runTimeline True False 100 ex_state"

definition ex_state_recording :: AppState where
  "ex_state_recording = renderVideo ex_browser 100 ex_state"

section \<open>Timeline Builder and Frame Mapper\<close>





























section \<open>Drawing and the playback loop\<close>



lemma drawFrame_cases:
  "drawFrame sl e s = s \<or> (\<exists>k p. drawFrame sl e s = emit (DrawSlide (sl ! k) p) s)"
  by (auto simp: drawFrame_def split: option.splits)

lemma drawFrame_fields [simp]:
  "slides (drawFrame sl e s) = slides s"
  "isPlaying (drawFrame sl e s) = isPlaying s"
  "isRecording (drawFrame sl e s) = isRecording s"
  "statusMessage (drawFrame sl e s) = statusMessage s"
  "recordedUrl (drawFrame sl e s) = recordedUrl s"
  "canvasRef (drawFrame sl e s) = canvasRef s"
  "animationRef (drawFrame sl e s) = animationRef s"
  "playingRef (drawFrame sl e s) = playingRef s"
  "recorderRef (drawFrame sl e s) = recorderRef s"
  "recordedChunksRef (drawFrame sl e s) = recordedChunksRef s"
  "pendingFrames (drawFrame sl e s) = pendingFrames s"
  "nextFrameId (drawFrame sl e s) = nextFrameId s"
  using drawFrame_cases [of sl e s] by (auto simp: emit_def)

lemma requestAnimationFrame_eq:
  "requestAnimationFrame tick s
   = (nextFrameId s,
      s\<lparr>pendingFrames := pendingFrames s @ [(nextFrameId s, tick)],
        nextFrameId := nextFrameId s + 1,
        trace := trace s @ [RequestAnimationFrame (nextFrameId s)]\<rparr>)"
  by (simp add: requestAnimationFrame_def Let_def emit_def)

lemma preview_tick_final_loop:
  assumes "playingRef s" and "of_int (totalDurationMs (timeline sl)) \<le> now - start"
  shows "preview_tick start True oc sl now s
         = (drawFrame sl (of_int (totalDurationMs (timeline sl) - 1)) s)
             \<lparr>pendingFrames := pendingFrames s @ [(nextFrameId s, PreviewTick now True oc sl)],
              nextFrameId := nextFrameId s + 1,
              trace := trace (drawFrame sl (of_int (totalDurationMs (timeline sl) - 1)) s)
                       @ [RequestAnimationFrame (nextFrameId s)],
              animationRef := Some (nextFrameId s)\<rparr>"
proof -
  define s1 where "s1 = drawFrame sl (of_int (totalDurationMs (timeline sl) - 1)) s"
  have f: "pendingFrames s1 = pendingFrames s" "nextFrameId s1 = nextFrameId s"
    by (simp_all add: s1_def)
  have "preview_tick start True oc sl now s
        = (let (handle, s2) = requestAnimationFrame (PreviewTick now True oc sl) s1
           in s2\<lparr>animationRef := Some handle\<rparr>)"
    using assms unfolding preview_tick_def s1_def Let_def by simp
  also have "\<dots> = s1\<lparr>pendingFrames := pendingFrames s @ [(nextFrameId s, PreviewTick now True oc sl)],
              nextFrameId := nextFrameId s + 1,
              trace := trace s1 @ [RequestAnimationFrame (nextFrameId s)],
              animationRef := Some (nextFrameId s)\<rparr>"
    unfolding requestAnimationFrame_eq f by simp
  finally show ?thesis unfolding s1_def .
qed

lemma preview_tick_final_once:
  assumes "playingRef s" and "of_int (totalDurationMs (timeline sl)) \<le> now - start"
  shows "preview_tick start False oc sl now s
         = (drawFrame sl (of_int (totalDurationMs (timeline sl) - 1)) s)
             \<lparr>playingRef := False, isPlaying := False,
              trace := trace (drawFrame sl (of_int (totalDurationMs (timeline sl) - 1)) s)
                       @ (if oc then [OnComplete] else [])\<rparr>"
proof -
  define s1 where "s1 = drawFrame sl (of_int (totalDurationMs (timeline sl) - 1)) s"
  have "preview_tick start False oc sl now s
        = (let s2 = s1\<lparr>playingRef := False, isPlaying := False\<rparr>
           in if oc then emit OnComplete s2 else s2)"
    using assms unfolding preview_tick_def s1_def Let_def by simp
  also have "\<dots> = s1\<lparr>playingRef := False, isPlaying := False,
                       trace := trace s1 @ (if oc then [OnComplete] else [])\<rparr>"
    by (simp add: emit_def Let_def)
  finally show ?thesis unfolding s1_def .
qed

lemma preview_tick_running:
  assumes "playingRef s" and "now - start < of_int (totalDurationMs (timeline sl))"
  shows "preview_tick start loop oc sl now s
         = (drawFrame sl (now - start) s)
             \<lparr>pendingFrames := pendingFrames s @ [(nextFrameId s, PreviewTick start loop oc sl)],
              nextFrameId := nextFrameId s + 1,
              trace := trace (drawFrame sl (now - start) s)
                       @ [RequestAnimationFrame (nextFrameId s)],
              animationRef := Some (nextFrameId s)\<rparr>"
proof -
  define s1 where "s1 = drawFrame sl (now - start) s"
  have f: "pendingFrames s1 = pendingFrames s" "nextFrameId s1 = nextFrameId s"
    by (simp_all add: s1_def)
  have "\<not> of_int (totalDurationMs (timeline sl)) \<le> now - start" using assms(2) by simp
  then have "preview_tick start loop oc sl now s
        = (let (handle, s2) = requestAnimationFrame (PreviewTick start loop oc sl) s1
           in s2\<lparr>animationRef := Some handle\<rparr>)"
    using assms(1) unfolding preview_tick_def s1_def Let_def by simp
  also have "\<dots> = s1\<lparr>pendingFrames := pendingFrames s @ [(nextFrameId s, PreviewTick start loop oc sl)],
              nextFrameId := nextFrameId s + 1,
              trace := trace s1 @ [RequestAnimationFrame (nextFrameId s)],
              animationRef := Some (nextFrameId s)\<rparr>"
    unfolding requestAnimationFrame_eq f by simp
  finally show ?thesis unfolding s1_def .
qed



section \<open>Cancellation and the scheduling discipline\<close>

lemma run_tick_not_playing: "\<not> playingRef s \<Longrightarrow> run_tick tick now s = s"
  by (cases tick) (simp_all add: preview_tick_def capture_tick_def)

lemma playingRef_cancel_pending [simp]: "playingRef (cancel_pending s) = playingRef s"
  by (simp add: cancel_pending_def cancelAnimationFrame_def emit_def split: option.splits)

lemma playingRef_stopPlayback: "\<not> playingRef (stopPlayback s)"
  by (simp add: stopPlayback_def)

lemma steps_not_playing:
  "\<not> playingRef s \<Longrightarrow> foldl (\<lambda>st (tick, now). run_tick tick now st) s steps = s"
  by (induction steps) (auto simp: run_tick_not_playing)

lemma stopPlayback_cancels:
  "animationRef s = Some h \<Longrightarrow> h \<noteq> 0 \<Longrightarrow> h \<notin> fst ` set (pendingFrames (stopPlayback s))"
  by (auto simp: stopPlayback_def cancel_pending_def cancelAnimationFrame_def emit_def)

lemma find_first_None: "find_first P xs = None \<Longrightarrow> filter (\<lambda>x. \<not> P x) xs = xs"
  by (induction xs) (auto split: if_splits)

lemma fire_not_playing:
  assumes "\<not> playingRef s"
  shows "fire h now s = s\<lparr>pendingFrames := filter (\<lambda>(h', tick'). h' \<noteq> h) (pendingFrames s)\<rparr>"
proof (cases "find_first (\<lambda>(h', tick). h' = h) (pendingFrames s)")
  case None
  from find_first_None [OF None]
  have "filter (\<lambda>(h', tick'). h' \<noteq> h) (pendingFrames s) = pendingFrames s"
    by (simp add: case_prod_unfold)
  with None show ?thesis by (simp add: fire_def)
next
  case (Some a)
  obtain h' tick where a: "a = (h', tick)" by (cases a)
  have "\<not> playingRef (s\<lparr>pendingFrames := filter (\<lambda>(h', tick'). h' \<noteq> h) (pendingFrames s)\<rparr>)"
    using assms by simp
  from run_tick_not_playing [OF this] Some a show ?thesis by (simp add: fire_def)
qed

lemma stop_tracks_eq: "stop_tracks stream s = s\<lparr>trace := trace s @ map TrackStop stream\<rparr>"
proof (induction stream arbitrary: s)
  case Nil
  show ?case by (simp add: stop_tracks_def)
next
  case (Cons track stream)
  have "stop_tracks (track # stream) s = stop_tracks stream (emit (TrackStop track) s)"
    by (simp add: stop_tracks_def)
  also have "\<dots> = s\<lparr>trace := trace s @ map TrackStop (track # stream)\<rparr>"
    unfolding Cons.IH by (simp add: emit_def)
  finally show ?case .
qed

text \<open>The calls \<^verbatim>\<open>cancelAnimationFrame\<close> made by \<open>cancel_pending\<close>.\<close>

lemma cancel_pending_eq:
  "cancel_pending s
   = (case animationRef s of
        None \<Rightarrow> s
      | Some handle \<Rightarrow>
          if handle \<noteq> 0
          then s\<lparr>pendingFrames := filter (\<lambda>(h, tick). h \<noteq> handle) (pendingFrames s),
                 trace := trace s @ [CancelAnimationFrame handle]\<rparr>
          else s)"
  by (simp add: cancel_pending_def cancelAnimationFrame_def emit_def split: option.splits)

lemma cancel_pending_fields [simp]:
  "slides (cancel_pending s) = slides s"
  "isPlaying (cancel_pending s) = isPlaying s"
  "isRecording (cancel_pending s) = isRecording s"
  "statusMessage (cancel_pending s) = statusMessage s"
  "recordedUrl (cancel_pending s) = recordedUrl s"
  "canvasRef (cancel_pending s) = canvasRef s"
  "animationRef (cancel_pending s) = animationRef s"
  "recorderRef (cancel_pending s) = recorderRef s"
  "recordedChunksRef (cancel_pending s) = recordedChunksRef s"
  "nextFrameId (cancel_pending s) = nextFrameId s"
  by (simp_all add: cancel_pending_eq split: option.splits)





lemma selectMimeType_cases:
  "selectMimeType browser
   = (if \<not> hasMediaRecorder browser then None
      else if isTypeSupported browser ''video/webm;codecs=vp9'' = Supported
        then Some ''video/webm;codecs=vp9''
      else if isTypeSupported browser ''video/webm;codecs=vp8'' = Supported
        then Some ''video/webm;codecs=vp8''
      else if isTypeSupported browser ''video/webm'' = Supported
        then Some ''video/webm''
      else None)"
  by (simp add: selectMimeType_def candidates_def split: Probe.splits)

lemma mimeType_truthy:
  "(case selectMimeType browser of None \<Rightarrow> None | Some m \<Rightarrow> if m \<noteq> [] then Some m else None)
   = selectMimeType browser"
  by (simp add: selectMimeType_cases)

lemma renderVideo_guarded:
  "length (slides s) = 0 \<or> isRecording s \<Longrightarrow> renderVideo browser now s = s"
  by (simp add: renderVideo_def)

lemma renderVideo_absent:
  assumes "slides s \<noteq> []" and "\<not> isRecording s" and "canvasRef s = Some canvas"
    and "\<not> hasMediaRecorder browser"
  shows "renderVideo browser now s
         = capture_failed (captureStream canvas 30)
             ((cancel_pending (emit (CaptureStream 30) s))\<lparr>recordedChunksRef := []\<rparr>)"
  using assms by (simp add: renderVideo_def Let_def)

lemma renderVideo_rejected:
  assumes "slides s \<noteq> []" and "\<not> isRecording s" and "canvasRef s = Some canvas"
    and "hasMediaRecorder browser" and "\<not> constructs browser (selectMimeType browser)"
  shows "renderVideo browser now s
         = capture_failed (captureStream canvas 30)
             (emit (NewMediaRecorder (selectMimeType browser))
                ((cancel_pending (emit (CaptureStream 30) s))\<lparr>recordedChunksRef := []\<rparr>))"
  using assms unfolding renderVideo_def Let_def mimeType_truthy by simp

lemma capture_failed_eq:
  "capture_failed stream s
   = s\<lparr>statusMessage := Some ''MediaRecorder is not supported in this browser.'',
       trace := trace s @ map TrackStop stream,
       playingRef := False, isPlaying := False, isRecording := False\<rparr>"
  by (simp add: capture_failed_def Let_def stop_tracks_eq)

lemma renderVideo_started:
  assumes "slides s \<noteq> []" and "\<not> isRecording s" and "canvasRef s = Some canvas"
    and "hasMediaRecorder browser" and "constructs browser (selectMimeType browser)"
  defines "recorder \<equiv> \<lparr>recorder_stream = captureStream canvas 30,
                         recorder_mimeType = selectMimeType browser,
                         recorder_recordedUrl = recordedUrl s\<rparr>"
  defines "s8 \<equiv> (emit (RecorderStart 200)
                   ((emit (NewMediaRecorder (selectMimeType browser))
                      ((cancel_pending (emit (CaptureStream 30) s))\<lparr>recordedChunksRef := []\<rparr>))
                    \<lparr>recorderRef := Some recorder, isRecording := True,
                     statusMessage := Some ''Rendering video...''\<rparr>))
                 \<lparr>playingRef := True, isPlaying := True\<rparr>"
  shows "renderVideo browser now s
         = (drawFrame (slides s) 0 s8)
             \<lparr>pendingFrames := pendingFrames s8 @ [(nextFrameId s, CaptureTick now recorder (slides s))],
              nextFrameId := nextFrameId s + 1,
              trace := trace (drawFrame (slides s) 0 s8) @ [RequestAnimationFrame (nextFrameId s)],
              animationRef := Some (nextFrameId s)\<rparr>"
proof -
  have n: "nextFrameId s8 = nextFrameId s" by (simp add: s8_def emit_def)
  have "renderVideo browser now s
        = (let (handle, s10) = requestAnimationFrame (CaptureTick now recorder (slides s))
                                  (drawFrame (slides s) 0 s8)
           in s10\<lparr>animationRef := Some handle\<rparr>)"
    using assms(1-5) unfolding renderVideo_def Let_def mimeType_truthy s8_def recorder_def
    by simp
  also have "\<dots> = (drawFrame (slides s) 0 s8)
             \<lparr>pendingFrames := pendingFrames s8 @ [(nextFrameId s, CaptureTick now recorder (slides s))],
              nextFrameId := nextFrameId s + 1,
              trace := trace (drawFrame (slides s) 0 s8) @ [RequestAnimationFrame (nextFrameId s)],
              animationRef := Some (nextFrameId s)\<rparr>"
    unfolding requestAnimationFrame_eq by (simp add: n)
  finally show ?thesis .
qed


lemma renderVideo_failed:
  assumes "slides s \<noteq> []" and "\<not> isRecording s" and "canvasRef s = Some canvas"
    and "\<not> hasMediaRecorder browser \<or> \<not> constructs browser (selectMimeType browser)"
  shows "renderVideo browser now s
         = (cancel_pending s)
             \<lparr>recordedChunksRef := [],
              statusMessage := Some ''MediaRecorder is not supported in this browser.'',
              playingRef := False, isPlaying := False, isRecording := False,
              trace := trace s @ [CaptureStream 30]
                       @ (case animationRef s of
                            None \<Rightarrow> []
                          | Some handle \<Rightarrow> if handle \<noteq> 0 then [CancelAnimationFrame handle] else [])
                       @ (if hasMediaRecorder browser
                          then [NewMediaRecorder (selectMimeType browser)] else [])
                       @ map TrackStop (captureStream canvas 30)\<rparr>"
proof (cases "hasMediaRecorder browser")
  case False
  show ?thesis
    unfolding renderVideo_absent [OF assms(1-3) False] capture_failed_eq
    using False by (simp add: cancel_pending_eq emit_def split: option.splits)
next
  case True
  with assms(4) have "\<not> constructs browser (selectMimeType browser)" by simp
  from renderVideo_rejected [OF assms(1-3) True this]
  show ?thesis
    unfolding capture_failed_eq
    using True by (simp add: cancel_pending_eq emit_def split: option.splits)
qed

lemma single_schedule_initial: "single_schedule (initial_state canvas sl)"
  by (simp add: single_schedule_def initial_state_def)

lemma cancel_pending_clears:
  assumes "single_schedule s"
  shows "pendingFrames (cancel_pending s) = []"
proof (cases "pendingFrames s = []")
  case True
  then show ?thesis by (simp add: cancel_pending_eq split: option.splits)
next
  case False
  with assms obtain handle where h: "animationRef s = Some handle" "handle \<noteq> 0"
    "map fst (pendingFrames s) = [handle]"
    by (auto simp: single_schedule_def split: option.splits)
  from h(3) obtain tick where "pendingFrames s = [(handle, tick)]"
    by (cases "pendingFrames s") auto
  with h(1,2) show ?thesis by (simp add: cancel_pending_eq)
qed

lemma pendingFrames_cancel_pending_trace [simp]:
  "pendingFrames (cancel_pending (s\<lparr>trace := t\<rparr>)) = pendingFrames (cancel_pending s)"
  by (simp add: cancel_pending_eq split: option.splits)

lemma pendingFrames_cancel_pending_flags [simp]:
  "pendingFrames (cancel_pending (s\<lparr>playingRef := p, isPlaying := q\<rparr>))
   = pendingFrames (cancel_pending s)"
  by (simp add: cancel_pending_eq split: option.splits)

lemma single_schedule_stopPlayback:
  assumes "single_schedule s"
  shows "single_schedule (stopPlayback s)"
proof -
  have "pendingFrames (stopPlayback s) = []"
    unfolding stopPlayback_def using cancel_pending_clears [OF assms] by simp
  moreover have "nextFrameId (stopPlayback s) \<noteq> 0"
    using assms by (simp add: stopPlayback_def single_schedule_def)
  ultimately show ?thesis by (simp add: single_schedule_def)
qed

lemma single_schedule_runTimeline:
  assumes "single_schedule s"
  shows "single_schedule (runTimeline loop oc now s)"
proof (cases "slides s = []")
  case True
  with assms show ?thesis by (simp add: runTimeline_def)
next
  case False
  define s3 where "s3 = drawFrame (slides s) 0 ((cancel_pending s)\<lparr>playingRef := True, isPlaying := True\<rparr>)"
  have p: "pendingFrames s3 = []" "nextFrameId s3 = nextFrameId s" "playingRef s3"
    using cancel_pending_clears [OF assms] by (simp_all add: s3_def)
  have "runTimeline loop oc now s
        = (let (handle, s4) = requestAnimationFrame (PreviewTick now loop oc (slides s)) s3
           in s4\<lparr>animationRef := Some handle\<rparr>)"
    using False unfolding runTimeline_def Let_def s3_def by simp
  also have "\<dots> = s3\<lparr>pendingFrames := [(nextFrameId s, PreviewTick now loop oc (slides s))],
                       nextFrameId := nextFrameId s + 1,
                       trace := trace s3 @ [RequestAnimationFrame (nextFrameId s)],
                       animationRef := Some (nextFrameId s)\<rparr>"
    unfolding requestAnimationFrame_eq p by simp
  finally show ?thesis using assms p(3) by (simp add: single_schedule_def)
qed

lemma single_schedule_renderVideo:
  assumes "single_schedule s"
  shows "single_schedule (renderVideo browser now s)"
proof (cases "slides s = [] \<or> isRecording s")
  case True
  then have "renderVideo browser now s = s" by (auto simp: renderVideo_def)
  with assms show ?thesis by simp
next
  case guard: False
  show ?thesis
  proof (cases "canvasRef s")
    case None
    with guard have "renderVideo browser now s
                     = s\<lparr>statusMessage := Some ''Canvas preview is not ready.''\<rparr>"
      by (simp add: renderVideo_def)
    with assms show ?thesis by (simp add: single_schedule_def cong: option.case_cong)
  next
    case (Some canvas)
    from guard have g: "slides s \<noteq> []" "\<not> isRecording s" by simp_all
    have n: "nextFrameId s \<noteq> 0" using assms by (simp add: single_schedule_def)
    show ?thesis
    proof (cases "hasMediaRecorder browser \<and> constructs browser (selectMimeType browser)")
      case False
      then have f: "\<not> hasMediaRecorder browser \<or> \<not> constructs browser (selectMimeType browser)"
        by simp
      show ?thesis
        unfolding renderVideo_failed [OF g Some f]
        using cancel_pending_clears [OF assms] n by (simp add: single_schedule_def)
    next
      case True
      then have h: "hasMediaRecorder browser" and c: "constructs browser (selectMimeType browser)"
        by simp_all
      show ?thesis
        unfolding renderVideo_started [OF g Some h c]
        using cancel_pending_clears [OF assms] n
        by (simp add: single_schedule_def emit_def)
    qed
  qed
qed

lemma capture_tick_final:
  assumes "playingRef s" and "of_int (totalDurationMs (timeline sl)) \<le> now - start"
  shows "capture_tick start recorder sl now s
         = (drawFrame sl (of_int (totalDurationMs (timeline sl) - 1)) s)
             \<lparr>playingRef := False, isPlaying := False,
              trace := trace (drawFrame sl (of_int (totalDurationMs (timeline sl) - 1)) s)
                       @ [RecorderStop]\<rparr>"
proof -
  define s1 where "s1 = drawFrame sl (of_int (totalDurationMs (timeline sl) - 1)) s"
  have "capture_tick start recorder sl now s
        = emit RecorderStop (s1\<lparr>playingRef := False, isPlaying := False\<rparr>)"
    using assms unfolding capture_tick_def s1_def Let_def by simp
  also have "\<dots> = s1\<lparr>playingRef := False, isPlaying := False,
                       trace := trace s1 @ [RecorderStop]\<rparr>"
    by (simp add: emit_def)
  finally show ?thesis unfolding s1_def .
qed

lemma capture_tick_running:
  assumes "playingRef s" and "now - start < of_int (totalDurationMs (timeline sl))"
  shows "capture_tick start recorder sl now s
         = (drawFrame sl (now - start) s)
             \<lparr>pendingFrames := pendingFrames s @ [(nextFrameId s, CaptureTick start recorder sl)],
              nextFrameId := nextFrameId s + 1,
              trace := trace (drawFrame sl (now - start) s)
                       @ [RequestAnimationFrame (nextFrameId s)],
              animationRef := Some (nextFrameId s)\<rparr>"
proof -
  define s1 where "s1 = drawFrame sl (now - start) s"
  have f: "pendingFrames s1 = pendingFrames s" "nextFrameId s1 = nextFrameId s"
    by (simp_all add: s1_def)
  have "\<not> of_int (totalDurationMs (timeline sl)) \<le> now - start" using assms(2) by simp
  then have "capture_tick start recorder sl now s
        = (let (handle, s2) = requestAnimationFrame (CaptureTick start recorder sl) s1
           in s2\<lparr>animationRef := Some handle\<rparr>)"
    using assms(1) unfolding capture_tick_def s1_def Let_def by simp
  also have "\<dots> = s1\<lparr>pendingFrames := pendingFrames s @ [(nextFrameId s, CaptureTick start recorder sl)],
              nextFrameId := nextFrameId s + 1,
              trace := trace s1 @ [RequestAnimationFrame (nextFrameId s)],
              animationRef := Some (nextFrameId s)\<rparr>"
    unfolding requestAnimationFrame_eq f by simp
  finally show ?thesis unfolding s1_def .
qed

lemma single_schedule_run_tick:
  assumes "pendingFrames s = []" and "nextFrameId s \<noteq> 0"
  shows "single_schedule (run_tick tick now s)"
proof (cases "playingRef s")
  case False
  then have "run_tick tick now s = s" by (rule run_tick_not_playing)
  with assms show ?thesis by (simp add: single_schedule_def)
next
  case live: True
  show ?thesis
  proof (cases tick)
    case (PreviewTick start loop oc sl)
    show ?thesis
    proof (cases "of_int (totalDurationMs (timeline sl)) \<le> now - start")
      case final: True
      show ?thesis
      proof (cases loop)
        case True
        then have l: "loop = True" by simp
        show ?thesis
          unfolding PreviewTick run_tick.simps l preview_tick_final_loop [OF live final]
          using assms live by (simp add: single_schedule_def)
      next
        case False
        then have l: "loop = False" by simp
        show ?thesis
          unfolding PreviewTick run_tick.simps l preview_tick_final_once [OF live final]
          using assms by (simp add: single_schedule_def)
      qed
    next
      case False
      then have r: "now - start < of_int (totalDurationMs (timeline sl))" by simp
      show ?thesis
        unfolding PreviewTick run_tick.simps preview_tick_running [OF live r]
        using assms live by (simp add: single_schedule_def)
    qed
  next
    case (CaptureTick start recorder sl)
    show ?thesis
    proof (cases "of_int (totalDurationMs (timeline sl)) \<le> now - start")
      case final: True
      show ?thesis
        unfolding CaptureTick run_tick.simps capture_tick_final [OF live final]
        using assms by (simp add: single_schedule_def)
    next
      case False
      then have r: "now - start < of_int (totalDurationMs (timeline sl))" by simp
      show ?thesis
        unfolding CaptureTick run_tick.simps capture_tick_running [OF live r]
        using assms live by (simp add: single_schedule_def)
    qed
  qed
qed

lemma find_first_Some: "find_first P xs = Some x \<Longrightarrow> x \<in> set xs \<and> P x"
  by (induction xs) (auto split: if_splits)

lemma single_schedule_fire:
  assumes "single_schedule s"
  shows "single_schedule (fire handle now s)"
proof (cases "find_first (\<lambda>(h, tick). h = handle) (pendingFrames s)")
  case None
  with assms show ?thesis by (simp add: fire_def)
next
  case (Some a)
  obtain h tick where a: "a = (h, tick)" by (cases a)
  from find_first_Some [OF Some] a have mem: "(handle, tick) \<in> set (pendingFrames s)" and h: "h = handle"
    by auto
  then have ne: "pendingFrames s \<noteq> []" by auto
  with assms obtain h0 where "map fst (pendingFrames s) = [h0]"
    by (auto simp: single_schedule_def split: option.splits)
  then obtain t0 where one: "pendingFrames s = [(h0, t0)]"
    by (cases "pendingFrames s") auto
  with mem have "h0 = handle" by simp
  with one have empty: "filter (\<lambda>(h', tick'). h' \<noteq> handle) (pendingFrames s) = []" by simp
  have n: "nextFrameId s \<noteq> 0" using assms by (simp add: single_schedule_def)
  have "fire handle now s = run_tick tick now (s\<lparr>pendingFrames := []\<rparr>)"
    using Some a empty by (simp add: fire_def)
  moreover have "single_schedule (run_tick tick now (s\<lparr>pendingFrames := []\<rparr>))"
    by (rule single_schedule_run_tick) (simp_all add: n)
  ultimately show ?thesis by simp
qed

lemma single_schedule_perform:
  assumes "single_schedule s"
  shows "single_schedule (perform s a)"
proof (cases a)
  case (PlayPreview now)
  with assms show ?thesis by (simp add: playPreview_def single_schedule_runTimeline)
next
  case StopPreview
  with assms show ?thesis by (simp add: stopPreview_def single_schedule_stopPlayback)
next
  case (RenderVideo browser now)
  with assms show ?thesis by (simp add: single_schedule_renderVideo)
next
  case (Fire handle now)
  with assms show ?thesis by (simp add: single_schedule_fire)
next
  case (DataAvailable data)
  have "single_schedule (ondataavailable data s)"
    using assms
    by (simp add: ondataavailable_def single_schedule_def split: option.splits
        cong: option.case_cong)
  with DataAvailable show ?thesis by simp
next
  case RecorderStopped
  have "single_schedule (onstop recorder s)" for recorder
    using assms
    by (simp add: onstop_def Let_def stop_tracks_eq emit_def single_schedule_def
        split: option.splits cong: option.case_cong)
  with RecorderStopped assms show ?thesis by (simp split: option.splits)
qed

lemma single_schedule_run:
  "single_schedule s \<Longrightarrow> single_schedule (foldl perform s actions)"
  by (induction actions arbitrary: s) (simp_all add: single_schedule_perform)

lemma fired_step_is_live:
  assumes "(handle, tick) \<in> set (pendingFrames (foldl perform (initial_state canvas sl) actions))"
  shows "playingRef (foldl perform (initial_state canvas sl) actions)"
proof -
  have "single_schedule (foldl perform (initial_state canvas sl) actions)"
    by (rule single_schedule_run [OF single_schedule_initial])
  with assms show ?thesis by (auto simp: single_schedule_def)
qed

lemma nothing_pending_after_stop:
  "pendingFrames (stopPlayback (foldl perform (initial_state canvas sl) actions)) = []"
proof -
  have "single_schedule (foldl perform (initial_state canvas sl) actions)"
    by (rule single_schedule_run [OF single_schedule_initial])
  from cancel_pending_clears [OF this] show ?thesis
    by (simp add: stopPlayback_def)
qed

text \<open>
  Claim C5. Every step checks the liveness flag first and returns the state unchanged
  when it is not set: nothing is drawn, requested or called. \<open>stopPlayback\<close> clears the
  flag and cancels the frame whose handle \<open>animationRef\<close> holds, so after it any step of
  either loop, run directly or fired by the host, and any sequence of such steps, draws
  nothing, requests nothing and does not call \<open>onComplete\<close>; in a state that follows the
  scheduling discipline of the page no frame is left pending at all.
\<close>

theorem cancelled_steps_inert:
  "(\<not> playingRef s \<longrightarrow> run_tick tick now s = s)
   \<and> \<not> playingRef (stopPlayback s)
   \<and> (\<forall>h. animationRef s = Some h \<and> h \<noteq> 0 \<longrightarrow> h \<notin> fst ` set (pendingFrames (stopPlayback s)))
   \<and> run_tick tick now (stopPlayback s) = stopPlayback s
   \<and> fire handle now (stopPlayback s)
       = (stopPlayback s)\<lparr>pendingFrames :=
            filter (\<lambda>(h', tick'). h' \<noteq> handle) (pendingFrames (stopPlayback s))\<rparr>
   \<and> foldl (\<lambda>st (tick, now). run_tick tick now st) (stopPlayback s) steps = stopPlayback s
   \<and> (single_schedule s \<longrightarrow> pendingFrames (stopPlayback s) = [])"
proof (intro conjI impI allI)
  show "\<not> playingRef (stopPlayback s)" by (rule playingRef_stopPlayback)
  then show "run_tick tick now (stopPlayback s) = stopPlayback s" by (rule run_tick_not_playing)
  show "foldl (\<lambda>st (tick, now). run_tick tick now st) (stopPlayback s) steps = stopPlayback s"
    by (rule steps_not_playing [OF playingRef_stopPlayback])
  show "fire handle now (stopPlayback s)
        = (stopPlayback s)\<lparr>pendingFrames :=
             filter (\<lambda>(h', tick'). h' \<noteq> handle) (pendingFrames (stopPlayback s))\<rparr>"
    by (rule fire_not_playing [OF playingRef_stopPlayback])
next
  assume "\<not> playingRef s"
  then show "run_tick tick now s = s" by (rule run_tick_not_playing)
next
  assume "single_schedule s"
  from cancel_pending_clears [OF this] show "pendingFrames (stopPlayback s) = []"
    by (simp add: stopPlayback_def)
next
  fix h
  assume "animationRef s = Some h \<and> h \<noteq> 0"
  then show "h \<notin> fst ` set (pendingFrames (stopPlayback s))"
    using stopPlayback_cancels by blast
qed

theorem cancelled_steps_inert_witness:
  "playingRef ex_state_playing
   \<and> \<not> playingRef (stopPlayback ex_state_playing)
   \<and> run_tick (PreviewTick 100 True False [ex_slide 4, ex_slide 2]) 8100
        (stopPlayback ex_state_playing)
     = stopPlayback ex_state_playing
   \<and> animationRef ex_state_playing = Some 1
   \<and> 1 \<notin> fst ` set (pendingFrames (stopPlayback ex_state_playing))"
proof -
  have p: "playingRef ex_state_playing" by code_simp
  have a: "animationRef ex_state_playing = Some 1" by code_simp
  note t = cancelled_steps_inert [of ex_state_playing
      "PreviewTick 100 True False [ex_slide 4, ex_slide 2]" 8100 0 "[]"]
  have "1 \<notin> fst ` set (pendingFrames (stopPlayback ex_state_playing))"
    using t a by simp
  with t p a show ?thesis by blast
qed

section \<open>Capture\<close>

text \<open>
  Claim C6, amended. With an empty slide list, \<open>runTimeline\<close> and \<open>renderVideo\<close> return
  at once and change nothing: the request is a silent no-op, and in particular no status
  message is set.
\<close>

theorem empty_slides_noop:
  assumes "slides s = []"
  shows "runTimeline loop oc now s = s \<and> renderVideo browser now s = s"
  using assms by (simp add: runTimeline_def renderVideo_def)

theorem empty_slides_noop_witness:
  "slides ex_state_empty = []
   \<and> runTimeline True False 0 ex_state_empty = ex_state_empty
   \<and> renderVideo ex_browser 0 ex_state_empty = ex_state_empty"
proof -
  have e: "slides ex_state_empty = []" by (simp add: ex_state_empty_def initial_state_def)
  from empty_slides_noop [OF e] e show ?thesis by blast
qed

text \<open>
  Claim C6 as stated fails: on the example page with no slides and no status message,
  both \<open>runTimeline\<close> and \<open>renderVideo\<close> leave \<open>statusMessage\<close> at \<open>None\<close>, so the
  rejection is not surfaced.
\<close>

theorem empty_slides_status_counterexample:
  "slides ex_state_empty = []
   \<and> statusMessage ex_state_empty = None
   \<and> statusMessage (runTimeline True False 0 ex_state_empty) = None
   \<and> statusMessage (renderVideo ex_browser 0 ex_state_empty) = None"
  by (simp add: ex_state_empty_def initial_state_def runTimeline_def renderVideo_def)

text \<open>
  Claim C7. When \<open>isRecording\<close> is set, \<open>renderVideo\<close> returns the state unchanged (React
  state, refs, recorder, chunk buffer, status, pending frames and host calls), so what
  the recorder's \<open>onstop\<close> handler later builds is the same as without the second call.
\<close>

theorem second_capture_rejected:
  assumes "isRecording s"
  shows "renderVideo browser now s = s
         \<and> onstop recorder (renderVideo browser now s) = onstop recorder s"
  using assms by (simp add: renderVideo_def)

theorem second_capture_rejected_witness:
  "isRecording ex_state_recording
   \<and> renderVideo ex_browser 200 ex_state_recording = ex_state_recording"
proof -
  have r: "isRecording ex_state_recording" by code_simp
  from second_capture_rejected [OF r] r show ?thesis by blast
qed




text \<open>
  Claim C9. When \<open>renderVideo\<close> gets past its guards and building the recorder fails
  (\<open>MediaRecorder\<close> is undefined or its constructor throws), then within that call every
  track of the captured stream is stopped, \<open>playingRef\<close>, \<open>isPlaying\<close> and \<open>isRecording\<close>
  are false, the status message reports the failure, no artifact is produced
  (\<open>recordedUrl\<close> and \<open>recorderRef\<close> are as before, the chunk buffer is empty), and no
  frame is requested.
\<close>

theorem capture_failure_cleanup:
  assumes "slides s \<noteq> []" and "\<not> isRecording s" and "canvasRef s = Some canvas"
    and "\<not> hasMediaRecorder browser \<or> \<not> constructs browser (selectMimeType browser)"
  shows "trace (renderVideo browser now s)
         = trace s @ [CaptureStream 30]
           @ (case animationRef s of
                None \<Rightarrow> []
              | Some handle \<Rightarrow> if handle \<noteq> 0 then [CancelAnimationFrame handle] else [])
           @ (if hasMediaRecorder browser then [NewMediaRecorder (selectMimeType browser)] else [])
           @ map TrackStop (captureStream canvas 30)
       \<and> \<not> playingRef (renderVideo browser now s)
       \<and> \<not> isPlaying (renderVideo browser now s)
       \<and> \<not> isRecording (renderVideo browser now s)
       \<and> statusMessage (renderVideo browser now s)
         = Some ''MediaRecorder is not supported in this browser.''
       \<and> recordedUrl (renderVideo browser now s) = recordedUrl s
       \<and> recorderRef (renderVideo browser now s) = recorderRef s
       \<and> recordedChunksRef (renderVideo browser now s) = []
       \<and> set (pendingFrames (renderVideo browser now s)) \<subseteq> set (pendingFrames s)"
proof -
  note eq = renderVideo_failed [OF assms, of now]
  have "set (pendingFrames (cancel_pending s)) \<subseteq> set (pendingFrames s)"
    by (auto simp: cancel_pending_eq split: option.splits)
  then show ?thesis unfolding eq by simp
qed

theorem capture_failure_cleanup_witness:
  "slides ex_state_playing \<noteq> [] \<and> \<not> isRecording ex_state_playing
   \<and> canvasRef ex_state_playing = Some ex_canvas
   \<and> \<not> constructs ex_browser_failing (selectMimeType ex_browser_failing)
   \<and> \<not> playingRef (renderVideo ex_browser_failing 200 ex_state_playing)
   \<and> \<not> isPlaying (renderVideo ex_browser_failing 200 ex_state_playing)
   \<and> \<not> isRecording (renderVideo ex_browser_failing 200 ex_state_playing)
   \<and> statusMessage (renderVideo ex_browser_failing 200 ex_state_playing)
     = Some ''MediaRecorder is not supported in this browser.''"
proof -
  have a: "slides ex_state_playing \<noteq> []" by code_simp
  have b: "\<not> isRecording ex_state_playing" by code_simp
  have c: "canvasRef ex_state_playing = Some ex_canvas"
    by (simp add: ex_state_playing_def runTimeline_def Let_def requestAnimationFrame_eq
        ex_state_def initial_state_def)
  have d: "\<not> constructs ex_browser_failing (selectMimeType ex_browser_failing)"
    by (simp add: ex_browser_failing_def)
  from d have d': "\<not> hasMediaRecorder ex_browser_failing
                  \<or> \<not> constructs ex_browser_failing (selectMimeType ex_browser_failing)" by simp
  from capture_failure_cleanup [OF a b c d', of 200] a b c d show ?thesis by blast
qed

section \<open>Editing the slide list\<close>

lemma removeSlide_short: "length prev \<le> 1 \<Longrightarrow> removeSlide ident prev = prev"
  by (simp add: removeSlide_def)

lemma removeSlide_long:
  "1 < length prev \<Longrightarrow>
   removeSlide ident prev = filter (\<lambda>slide. slide_id slide \<noteq> ident) prev"
  by (simp add: removeSlide_def)

lemma filter_distinct_length:
  "distinct (map f xs) \<Longrightarrow> length xs \<le> Suc (length (filter (\<lambda>x. f x \<noteq> a) xs))"
proof (induction xs)
  case Nil
  show ?case by simp
next
  case (Cons x xs)
  show ?case
  proof (cases "f x = a")
    case True
    with Cons.prems have "\<forall>y \<in> set xs. f y \<noteq> a" by (auto simp: image_iff)
    then have "filter (\<lambda>x. f x \<noteq> a) xs = xs" by simp
    with True show ?thesis by simp
  next
    case False
    with Cons show ?thesis by simp
  qed
qed

lemma moveSlide_nonempty: "prev \<noteq> [] \<Longrightarrow> moveSlide ident direction prev \<noteq> []"
  by (simp add: moveSlide_def Let_def)

lemma apply_op_nonempty:
  assumes "prev \<noteq> []" and "distinct (map slide_id prev)"
  shows "apply_op prev op \<noteq> []"
proof (cases op)
  case (Add crypto)
  then show ?thesis by (simp add: addSlide_def)
next
  case (Update ident patch)
  with assms(1) show ?thesis by (simp add: updateSlide_def)
next
  case (Move ident direction)
  with assms(1) show ?thesis by (simp add: moveSlide_nonempty)
next
  case (Remove ident)
  show ?thesis
  proof (cases "length prev \<le> 1")
    case True
    with Remove assms(1) show ?thesis by (simp add: removeSlide_def)
  next
    case False
    from filter_distinct_length [OF assms(2), of ident]
    have "length prev \<le> Suc (length (filter (\<lambda>slide. slide_id slide \<noteq> ident) prev))" .
    with False have "filter (\<lambda>slide. slide_id slide \<noteq> ident) prev \<noteq> []" by auto
    with Remove False show ?thesis by (simp add: removeSlide_def)
  qed
qed

text \<open>
  Claim C10 fails on the code. Where \<open>crypto.randomUUID\<close> is unavailable, ids are
  \<open>slide-<index>\<close> with the length of the list as index: from the initial slides
  \<open>slide-0\<close> and \<open>slide-1\<close>, removing \<open>slide-0\<close> and adding a slide gives two slides
  with the id \<open>slide-1\<close>, and removing \<open>slide-1\<close> then empties the list.
\<close>

theorem slide_list_emptied:
  "foldl apply_op (INITIAL_SLIDES NoRandomUUID NoRandomUUID)
     [Remove ''slide-0'', Add NoRandomUUID, Remove ''slide-1''] = []"
  by code_simp

end
